theory Spec2Isabelle
  imports Main
begin

section \<open>The policy cache of resolved selector policies\<close>

text \<open>
  A shallow embedding of the cache of resolved policies (package policy: PolicyCache and
  cachedSelectorPolicy). The functions thread the cache explicitly. A call runs
  to its end before the next one begins, so Lock and Unlock leave no trace in the model;
  the one schedule in which two calls overlap is written out as a function of its own.

  The collaborators of the cache (the Repository, the methods Detach, DistillPolicy and
  RedirectFilters of selectorPolicy, the selector index behind CachedSelector.Selects) are
  declared in other files of the package. A call to one of them is recorded as an event,
  with the receiver it is made on, or taken as a parameter.
\<close>

subsection \<open>Data\<close>

text \<open>
  NumericIdentity, AuthType and the revision are integer types of other packages. The
  cache compares them and does no arithmetic on them: they are natural numbers here.
\<close>

type_synonym NumericIdentity = nat
type_synonym AuthType = nat

text \<open>
  AuthTypes is a Go map used as a set. Where the code ranges over one, the model holds its
  keys as a list, in the order of that iteration; where the code builds one (resTypes),
  it is a set, and the nil map is \<open>None\<close>.
\<close>

type_synonym AuthTypes = "AuthType set option"

text \<open>
  L4Policy.AuthMap maps a CachedSelector to the AuthTypes it requires. Go iterates a map
  in no fixed order: the list is the order of one iteration.
\<close>

record 'cs L4Policy =
  AuthMap :: "('cs \<times> AuthType list) list"

record 'cs selectorPolicy =
  Revision :: nat
  L4Policy :: "'cs L4Policy"

text \<open>
  A non-nil *selectorPolicy: the address of the object and the object, which is constant
  once created. The nil pointer is \<open>None\<close>.
\<close>

datatype 'cs selectorPolicy_ptr = Ptr (addr: nat) (target: "'cs selectorPolicy")

record Identity =
  ID :: NumericIdentity

record 'cs cachedSelectorPolicy =
  identity :: Identity
  policy :: "'cs selectorPolicy_ptr option"

text \<open>
  Modelled from the spec: the Repository is declared in another file of the package. It
  has a current revision and a resolver, which yields a resolved policy or an error.
\<close>

record 'cs Repository =
  revision :: nat
  resolve :: "Identity \<Rightarrow> string + 'cs selectorPolicy"

definition GetRevision :: "'cs Repository \<Rightarrow> nat" where
  "GetRevision r = revision r"

text \<open>
  The calls that leave the cache, and the swap of an entry's slot, in the order they
  happen. An entry is named by the ID of its identity, a selectorPolicy by its address.
\<close>

datatype event =
    SubscribeCall
  | ResolveCall NumericIdentity
  | SwapEvent NumericIdentity "nat option"
  | DetachCall "nat option"

text \<open>Go runtime panics.\<close>

datatype panic = NilPointerDereference

text \<open>
  The cache: the fields repo and policies of the struct, and two ghost fields:
  \<open>allocated\<close> counts the selectorPolicy objects the resolver has created (the next
  address), and \<open>trace\<close> is the list of events so far. The registry holds the entries
  themselves: every operation below reaches an entry through the registry.
\<close>

record 'cs PolicyCache =
  repo :: "'cs Repository"
  policies :: "NumericIdentity \<rightharpoonup> 'cs cachedSelectorPolicy"
  allocated :: nat
  trace :: "event list"

subsection \<open>Operations\<close>

definition emit :: "event list \<Rightarrow> 'cs PolicyCache \<Rightarrow> 'cs PolicyCache" where
  "emit evs cache = cache\<lparr>trace := trace cache @ evs\<rparr>"

definition NewPolicyCache :: "'cs Repository \<Rightarrow> 'm option \<Rightarrow> 'cs PolicyCache" where
  "NewPolicyCache r idmgr =
     \<lparr>repo = r, policies = Map.empty, allocated = 0,
      trace = (case idmgr of None \<Rightarrow> [] | Some _ \<Rightarrow> [SubscribeCall])\<rparr>"

definition newCachedSelectorPolicy :: "Identity \<Rightarrow> 'cs cachedSelectorPolicy" where
  "newCachedSelectorPolicy ident = \<lparr>identity = ident, policy = None\<rparr>"

definition getPolicy :: "'cs cachedSelectorPolicy \<Rightarrow> 'cs selectorPolicy_ptr option" where
  "getPolicy cip = policy cip"

text \<open>
  Modelled from the spec: Detach is a method of selectorPolicy, in another file of the
  package. It releases the hold of its receiver on the selector index. The model records
  the call and the receiver, the nil pointer as \<open>None\<close>.
\<close>

definition Detach :: "'cs selectorPolicy_ptr option \<Rightarrow> event list" where
  "Detach p = [DetachCall (map_option addr p)]"

definition lookupOrCreate ::
  "Identity \<Rightarrow> 'cs PolicyCache \<Rightarrow> 'cs cachedSelectorPolicy \<times> 'cs PolicyCache" where
  "lookupOrCreate ident cache =
     (case policies cache (ID ident) of
        Some cip \<Rightarrow> (cip, cache)
      | None \<Rightarrow>
          (let cip = newCachedSelectorPolicy ident
           in (cip, cache\<lparr>policies := (policies cache)(ID ident \<mapsto> cip)\<rparr>)))"

definition delete :: "Identity \<Rightarrow> 'cs PolicyCache \<Rightarrow> bool \<times> 'cs PolicyCache" where
  "delete ident cache =
     (case policies cache (ID ident) of
        Some cip \<Rightarrow>
          (True,
           emit (Detach (getPolicy cip))
             (cache\<lparr>policies := (policies cache)(ID ident := None)\<rparr>))
      | None \<Rightarrow> (False, cache))"

text \<open>
  setPolicy swaps the slot of the entry and then calls Detach on the old policy, if any.
  It returns the entry as it is afterwards and the events in their order.
\<close>

definition setPolicy ::
  "'cs selectorPolicy_ptr option \<Rightarrow> 'cs cachedSelectorPolicy \<Rightarrow>
     'cs cachedSelectorPolicy \<times> event list" where
  "setPolicy p cip =
     (let oldPolicy = policy cip;
          cip' = cip\<lparr>policy := p\<rparr>;
          swap = [SwapEvent (ID (identity cip)) (map_option addr p)]
      in if oldPolicy \<noteq> None then (cip', swap @ Detach oldPolicy) else (cip', swap))"

text \<open>
  Modelled from the spec: resolvePolicyLocked is a method of the Repository, in another
  file of the package. It resolves the policy of the identity; on success the result is a
  new selectorPolicy object, at an address that no earlier one has.
\<close>

definition resolvePolicyLocked ::
  "Identity \<Rightarrow> 'cs PolicyCache \<Rightarrow> (string + 'cs selectorPolicy_ptr) \<times> 'cs PolicyCache" where
  "resolvePolicyLocked ident cache =
     (let cache' = emit [ResolveCall (ID ident)] cache
      in case resolve (repo cache) ident of
           Inl err \<Rightarrow> (Inl err, cache')
         | Inr sp \<Rightarrow>
             (Inr (Ptr (allocated cache) sp),
              cache'\<lparr>allocated := Suc (allocated cache)\<rparr>))"

text \<open>
  The result of updateSelectorPolicy is the triple of the Go function: the entry or nil,
  whether the cache was updated, the error or nil.
\<close>

type_synonym 'cs update_result = "'cs cachedSelectorPolicy option \<times> bool \<times> string option"

definition upToDate :: "'cs cachedSelectorPolicy \<Rightarrow> 'cs PolicyCache \<Rightarrow> bool" where
  "upToDate cip cache =
     (case getPolicy cip of
        None \<Rightarrow> False
      | Some p \<Rightarrow> Revision (target p) \<ge> GetRevision (repo cache))"

definition updateSelectorPolicy ::
  "Identity \<Rightarrow> 'cs PolicyCache \<Rightarrow> 'cs update_result \<times> 'cs PolicyCache" where
  "updateSelectorPolicy ident cache =
     (let (cip, cache1) = lookupOrCreate ident cache
      in if upToDate cip cache1 then ((Some cip, False, None), cache1)
         else
           (case resolvePolicyLocked ident cache1 of
              (Inl err, cache2) \<Rightarrow> ((None, False, Some err), cache2)
            | (Inr selPolicy, cache2) \<Rightarrow>
                (let (cip', evs) = setPolicy (Some selPolicy) cip
                 in ((Some cip', True, None),
                     emit evs (cache2\<lparr>policies := (policies cache2)(ID ident \<mapsto> cip')\<rparr>)))))"

definition LocalEndpointIdentityAdded :: "Identity \<Rightarrow> 'cs PolicyCache \<Rightarrow> 'cs PolicyCache" where
  "LocalEndpointIdentityAdded ident cache = cache"

definition LocalEndpointIdentityRemoved :: "Identity \<Rightarrow> 'cs PolicyCache \<Rightarrow> 'cs PolicyCache" where
  "LocalEndpointIdentityRemoved ident cache = snd (delete ident cache)"

definition UpdatePolicy ::
  "Identity \<Rightarrow> 'cs PolicyCache \<Rightarrow>
     ('cs cachedSelectorPolicy option \<times> string option) \<times> 'cs PolicyCache" where
  "UpdatePolicy ident cache =
     (case updateSelectorPolicy ident cache of
        ((cip, _, err), cache') \<Rightarrow> ((cip, err), cache'))"

subsection \<open>GetAuthTypes\<close>

text \<open>The keys of an AuthTypes map: a lookup in the nil map finds nothing.\<close>

definition keysOf :: "AuthTypes \<Rightarrow> AuthType set" where
  "keysOf resTypes = (case resTypes of None \<Rightarrow> {} | Some s \<Rightarrow> s)"

text \<open>The inner loop that looks for an auth type still missing from the result.\<close>

fun missingLoop :: "AuthTypes \<Rightarrow> AuthType list \<Rightarrow> bool" where
  "missingLoop resTypes [] = False"
| "missingLoop resTypes (authType # rest) =
     (if authType \<notin> keysOf resTypes then True else missingLoop resTypes rest)"

text \<open>The inner loop that adds the auth types to the result, made first if it is nil.\<close>

fun addLoop :: "AuthType set \<Rightarrow> AuthType list \<Rightarrow> AuthType set" where
  "addLoop s [] = s"
| "addLoop s (authType # rest) = addLoop (insert authType s) rest"

text \<open>
  The loop over AuthMap. \<open>Selects\<close> is the method of CachedSelector and \<open>Latest\<close> the
  version handle of versioned.Latest(), both of the selector index.
\<close>

fun authLoop ::
  "('cs \<Rightarrow> 'v \<Rightarrow> NumericIdentity \<Rightarrow> bool) \<Rightarrow> 'v \<Rightarrow> NumericIdentity \<Rightarrow>
     ('cs \<times> AuthType list) list \<Rightarrow> AuthTypes \<Rightarrow> AuthTypes" where
  "authLoop Selects Latest remoteID [] resTypes = resTypes"
| "authLoop Selects Latest remoteID ((cs, authTypes) # rest) resTypes =
     (let missing = missingLoop resTypes authTypes
      in if missing \<and> Selects cs Latest remoteID
         then authLoop Selects Latest remoteID rest
                (Some (addLoop (keysOf resTypes) authTypes))
         else authLoop Selects Latest remoteID rest resTypes)"

text \<open>
  GetAuthTypes reads \<open>selPolicy.L4Policy.AuthMap\<close> with no check of selPolicy: on an
  entry whose slot is nil that is a nil pointer dereference.
\<close>

definition GetAuthTypes ::
  "('cs \<Rightarrow> 'v \<Rightarrow> NumericIdentity \<Rightarrow> bool) \<Rightarrow> 'v \<Rightarrow> 'cs PolicyCache \<Rightarrow>
     NumericIdentity \<Rightarrow> NumericIdentity \<Rightarrow> panic + AuthTypes" where
  "GetAuthTypes Selects Latest cache localID remoteID =
     (case policies cache localID of
        None \<Rightarrow> Inr None
      | Some cip \<Rightarrow>
          (case getPolicy cip of
             None \<Rightarrow> Inl NilPointerDereference
           | Some selPolicy \<Rightarrow>
               Inr (authLoop Selects Latest remoteID
                      (AuthMap (L4Policy (target selPolicy))) None)))"

subsection \<open>Consume and RedirectFilters\<close>





subsection \<open>An update overtaken by a deletion\<close>

text \<open>
  updateSelectorPolicy holds the mutex of the registry only inside lookupOrCreate; from
  there to its return it holds the mutex of the entry. delete holds the mutex of the
  registry and never that of an entry, so a call of delete for the same identity can run
  while an update is between lookupOrCreate and setPolicy. This is that schedule, with the
  whole of delete after the call of the resolver and before setPolicy.

  delete takes the entry out of the registry and reads its slot; it does not write to the
  entry. So setPolicy then works on the entry as lookupOrCreate returned it, which is no
  longer in the registry. The result is that of the update, that of delete if it ran,
  and the cache.
\<close>

definition updateSelectorPolicy_delete_before_setPolicy ::
  "Identity \<Rightarrow> 'cs PolicyCache \<Rightarrow> ('cs update_result \<times> bool option) \<times> 'cs PolicyCache" where
  "updateSelectorPolicy_delete_before_setPolicy ident cache =
     (let (cip, cache1) = lookupOrCreate ident cache
      in if upToDate cip cache1 then (((Some cip, False, None), None), cache1)
         else
           (case resolvePolicyLocked ident cache1 of
              (Inl err, cache2) \<Rightarrow> (((None, False, Some err), None), cache2)
            | (Inr selPolicy, cache2) \<Rightarrow>
                (let (ok, cache3) = delete ident cache2;
                     (cip', evs) = setPolicy (Some selPolicy) cip
                 in (((Some cip', True, None), Some ok), emit evs cache3))))"

section \<open>Notions of the specification\<close>

text \<open>The address in the slot of the entry of an identity, if there is one.\<close>

definition slot :: "'cs PolicyCache \<Rightarrow> NumericIdentity \<rightharpoonup> nat" where
  "slot cache k =
     (case policies cache k of None \<Rightarrow> None | Some cip \<Rightarrow> map_option addr (policy cip))"

definition resolveCalls :: "event list \<Rightarrow> event list" where
  "resolveCalls tr = filter (\<lambda>e. case e of ResolveCall _ \<Rightarrow> True | _ \<Rightarrow> False) tr"

text \<open>
  The union of the specification: the auth types of the pairs of the auth-rule table whose
  selector matches the remote identity at the latest version.
\<close>

definition matchingAuthTypes ::
  "('cs \<Rightarrow> 'v \<Rightarrow> NumericIdentity \<Rightarrow> bool) \<Rightarrow> 'v \<Rightarrow> NumericIdentity \<Rightarrow>
     ('cs \<times> AuthType list) list \<Rightarrow> AuthType set" where
  "matchingAuthTypes Selects Latest remoteID amap =
     \<Union> (set (map (\<lambda>(cs, authTypes). set authTypes)
                (filter (\<lambda>(cs, authTypes). Selects cs Latest remoteID) amap)))"

text \<open>
  The loop of GetAuthTypes without the membership check: the selector of every pair is
  tested.
\<close>

fun authLoopNoSkip ::
  "('cs \<Rightarrow> 'v \<Rightarrow> NumericIdentity \<Rightarrow> bool) \<Rightarrow> 'v \<Rightarrow> NumericIdentity \<Rightarrow>
     ('cs \<times> AuthType list) list \<Rightarrow> AuthTypes \<Rightarrow> AuthTypes" where
  "authLoopNoSkip Selects Latest remoteID [] resTypes = resTypes"
| "authLoopNoSkip Selects Latest remoteID ((cs, authTypes) # rest) resTypes =
     (if Selects cs Latest remoteID
      then authLoopNoSkip Selects Latest remoteID rest
             (Some (addLoop (keysOf resTypes) authTypes))
      else authLoopNoSkip Selects Latest remoteID rest resTypes)"

section \<open>Example data\<close>

text \<open>
  A repository at revision 1 whose resolver succeeds, one whose resolver fails, and the
  cache after the first update of identity 5 against the former. Selectors are numbers.
\<close>

definition examplePolicy :: "nat selectorPolicy" where
  "examplePolicy = \<lparr>Revision = 1, L4Policy = \<lparr>AuthMap = [(9, [1]), (8, [2, 3])]\<rparr>\<rparr>"

definition exampleRepo :: "nat Repository" where
  "exampleRepo = \<lparr>revision = 1, resolve = (\<lambda>ident. Inr examplePolicy)\<rparr>"

definition failingRepo :: "nat Repository" where
  "failingRepo = \<lparr>revision = 1, resolve = (\<lambda>ident. Inl ''unresolvable'')\<rparr>"

definition exampleIdentity :: Identity where
  "exampleIdentity = \<lparr>ID = 5\<rparr>"

definition resolvedEntry :: "nat cachedSelectorPolicy" where
  "resolvedEntry = \<lparr>identity = exampleIdentity, policy = Some (Ptr 0 examplePolicy)\<rparr>"

definition resolvedCache :: "nat PolicyCache" where
  "resolvedCache =
     \<lparr>repo = exampleRepo, policies = [5 \<mapsto> resolvedEntry], allocated = 1,
      trace = [ResolveCall 5, SwapEvent 5 (Some 0)]\<rparr>"

definition freshCache :: "nat PolicyCache" where
  "freshCache = NewPolicyCache exampleRepo (None :: unit option)"

definition freshFailingCache :: "nat PolicyCache" where
  "freshFailingCache = NewPolicyCache failingRepo (None :: unit option)"

definition emptyEntry :: "nat cachedSelectorPolicy" where
  "emptyEntry = \<lparr>identity = exampleIdentity, policy = None\<rparr>"

definition unresolvedCache :: "nat PolicyCache" where
  "unresolvedCache =
     \<lparr>repo = failingRepo, policies = [5 \<mapsto> emptyEntry], allocated = 0,
      trace = [ResolveCall 5]\<rparr>"

text \<open>The repository after a change of the rules, at revision 2, and a broken one.\<close>

definition newerPolicy :: "nat selectorPolicy" where
  "newerPolicy = \<lparr>Revision = 2, L4Policy = \<lparr>AuthMap = [(9, [4])]\<rparr>\<rparr>"

definition newerRepo :: "nat Repository" where
  "newerRepo = \<lparr>revision = 2, resolve = (\<lambda>ident. Inr newerPolicy)\<rparr>"

definition brokenRepo :: "nat Repository" where
  "brokenRepo = \<lparr>revision = 2, resolve = (\<lambda>ident. Inl ''unresolvable'')\<rparr>"

section \<open>The three outcomes of updateSelectorPolicy\<close>

lemma upToDate_iff:
  "upToDate (fst (lookupOrCreate ident cache)) cache \<longleftrightarrow>
     (\<exists>cip p. policies cache (ID ident) = Some cip \<and> policy cip = Some p \<and>
        GetRevision (repo cache) \<le> Revision (target p))"
  by (auto simp: upToDate_def lookupOrCreate_def getPolicy_def newCachedSelectorPolicy_def
      Let_def split: option.splits)

lemma updateSelectorPolicy_skip:
  assumes "cip = fst (lookupOrCreate ident cache)" and "upToDate cip cache"
  shows "updateSelectorPolicy ident cache = ((Some cip, False, None), cache)"
  using assms
  by (auto simp: updateSelectorPolicy_def lookupOrCreate_def upToDate_def getPolicy_def
      newCachedSelectorPolicy_def Let_def split: option.splits)

lemma updateSelectorPolicy_error:
  assumes "cip = fst (lookupOrCreate ident cache)" and "\<not> upToDate cip cache"
    and "resolve (repo cache) ident = Inl err"
  shows "updateSelectorPolicy ident cache =
     ((None, False, Some err),
      cache\<lparr>policies := (policies cache)(ID ident \<mapsto> cip),
            trace := trace cache @ [ResolveCall (ID ident)]\<rparr>)"
  using assms
  by (auto simp: updateSelectorPolicy_def lookupOrCreate_def upToDate_def getPolicy_def
      resolvePolicyLocked_def emit_def newCachedSelectorPolicy_def Let_def fun_upd_idem
      split: option.splits)

lemma updateSelectorPolicy_success:
  assumes "cip = fst (lookupOrCreate ident cache)" and "\<not> upToDate cip cache"
    and "resolve (repo cache) ident = Inr sp"
    and "cip' = cip\<lparr>policy := Some (Ptr (allocated cache) sp)\<rparr>"
  shows "updateSelectorPolicy ident cache =
     ((Some cip', True, None),
      cache\<lparr>policies := (policies cache)(ID ident \<mapsto> cip'),
            allocated := Suc (allocated cache),
            trace := trace cache @
              [ResolveCall (ID ident), SwapEvent (ID (identity cip)) (Some (allocated cache))] @
              (case policy cip of None \<Rightarrow> [] | Some old \<Rightarrow> [DetachCall (Some (addr old))])\<rparr>)"
  using assms
  by (auto simp: updateSelectorPolicy_def lookupOrCreate_def upToDate_def getPolicy_def
      resolvePolicyLocked_def emit_def newCachedSelectorPolicy_def Let_def setPolicy_def
      Detach_def split: option.splits)

section \<open>GetAuthTypes on an unknown local identity\<close>

text \<open>
  C8. When the registry has no entry for the local ID, GetAuthTypes returns the nil
  AuthTypes, the empty result, and does not fail, whatever the remote ID is.
\<close>

theorem GetAuthTypes_unknown_local:
  "policies cache localID = None \<Longrightarrow>
     GetAuthTypes Selects Latest cache localID remoteID = Inr None"
  by (simp add: GetAuthTypes_def)

theorem GetAuthTypes_unknown_local_witness:
  "policies freshFailingCache 7 = None
   \<and> GetAuthTypes (\<lambda>cs v remote. cs = remote) () freshFailingCache 7 9 = Inr None"
  using GetAuthTypes_unknown_local
    [of freshFailingCache 7 "\<lambda>cs v remote. cs = remote" "()" 9]
  by (simp add: freshFailingCache_def NewPolicyCache_def)

lemmas example_defs =
  examplePolicy_def exampleRepo_def failingRepo_def exampleIdentity_def resolvedEntry_def
  resolvedCache_def emptyEntry_def unresolvedCache_def freshCache_def freshFailingCache_def

lemmas update_defs =
  updateSelectorPolicy_def lookupOrCreate_def upToDate_def getPolicy_def GetRevision_def
  resolvePolicyLocked_def emit_def newCachedSelectorPolicy_def Let_def setPolicy_def
  Detach_def NewPolicyCache_def

lemma example_update:
  "updateSelectorPolicy exampleIdentity freshCache =
     ((Some resolvedEntry, True, None), resolvedCache)"
  by (simp add: update_defs example_defs)

lemma example_update_fails:
  "updateSelectorPolicy exampleIdentity freshFailingCache =
     ((None, False, Some ''unresolvable''), unresolvedCache)"
  by (simp add: update_defs example_defs)

section \<open>The revision gate of updateSelectorPolicy\<close>

text \<open>
  C1. When the entry of the identity holds a snapshot whose revision is at least the
  current revision of the repository, updateSelectorPolicy returns the entry, changed =
  false and no error, and leaves the cache as it is: the trace gets no call of the
  resolver and no swap. In particular, for two calls in a row with the repository
  unchanged, where the first returns no error and the resolver gives its results a
  revision that is at least the current one: the second call returns the same entry, so
  the same snapshot reference, with changed = false, and leaves the cache as it is; the
  first call has called the resolver once if it had to resolve (changed = true, which is
  the case exactly when the entry was not up to date) and not at all otherwise.
\<close>

theorem updateSelectorPolicy_up_to_date:
  "(policies cache (ID ident) = Some cip \<and> policy cip = Some p \<and>
    GetRevision (repo cache) \<le> Revision (target p) \<longrightarrow>
      updateSelectorPolicy ident cache = ((Some cip, False, None), cache))
   \<and>
   (updateSelectorPolicy ident cacheA = ((Some cipB, changed, None), cacheB) \<and>
    (\<forall>sp. resolve (repo cacheA) ident = Inr sp \<longrightarrow> GetRevision (repo cacheA) \<le> Revision sp) \<longrightarrow>
      updateSelectorPolicy ident cacheB = ((Some cipB, False, None), cacheB) \<and>
      resolveCalls (trace cacheB) =
        resolveCalls (trace cacheA) @ (if changed then [ResolveCall (ID ident)] else []) \<and>
      changed = (\<not> upToDate (fst (lookupOrCreate ident cacheA)) cacheA))"
proof (intro conjI impI)
  assume "policies cache (ID ident) = Some cip \<and> policy cip = Some p \<and>
    GetRevision (repo cache) \<le> Revision (target p)"
  then have "cip = fst (lookupOrCreate ident cache)" and "upToDate cip cache"
    by (simp_all add: lookupOrCreate_def upToDate_def getPolicy_def)
  then show "updateSelectorPolicy ident cache = ((Some cip, False, None), cache)"
    by (rule updateSelectorPolicy_skip)
next
  define cipA where "cipA = fst (lookupOrCreate ident cacheA)"
  assume a: "updateSelectorPolicy ident cacheA = ((Some cipB, changed, None), cacheB) \<and>
    (\<forall>sp. resolve (repo cacheA) ident = Inr sp \<longrightarrow> GetRevision (repo cacheA) \<le> Revision sp)"
  have "updateSelectorPolicy ident cacheB = ((Some cipB, False, None), cacheB) \<and>
      resolveCalls (trace cacheB) =
        resolveCalls (trace cacheA) @ (if changed then [ResolveCall (ID ident)] else []) \<and>
      changed = (\<not> upToDate cipA cacheA)"
  proof (cases "upToDate cipA cacheA")
    case True
    then have skip: "updateSelectorPolicy ident cacheA = ((Some cipA, False, None), cacheA)"
      using cipA_def by (intro updateSelectorPolicy_skip)
    with a have "cipB = cipA" "changed = False" "cacheB = cacheA" by simp_all
    with True skip show ?thesis by simp
  next
    case False
    show ?thesis
    proof (cases "resolve (repo cacheA) ident")
      case (Inl err)
      from updateSelectorPolicy_error [OF cipA_def False Inl] a show ?thesis by simp
    next
      case (Inr sp)
      define cip' where "cip' = cipA\<lparr>policy := Some (Ptr (allocated cacheA) sp)\<rparr>"
      from updateSelectorPolicy_success [OF cipA_def False Inr cip'_def] a
      have c1: "cipB = cip'" "changed = True"
        and c2: "cacheB = cacheA\<lparr>policies := (policies cacheA)(ID ident \<mapsto> cip'),
            allocated := Suc (allocated cacheA),
            trace := trace cacheA @
              [ResolveCall (ID ident), SwapEvent (ID (identity cipA)) (Some (allocated cacheA))] @
              (case policy cipA of None \<Rightarrow> [] | Some old \<Rightarrow> [DetachCall (Some (addr old))])\<rparr>"
        by simp_all
      from a Inr have rev: "GetRevision (repo cacheA) \<le> Revision sp" by simp
      have "cip' = fst (lookupOrCreate ident cacheB)"
        by (simp add: c2 lookupOrCreate_def)
      moreover have "upToDate cip' cacheB"
        using rev by (simp add: c2 cip'_def upToDate_def getPolicy_def)
      ultimately have "updateSelectorPolicy ident cacheB = ((Some cip', False, None), cacheB)"
        by (rule updateSelectorPolicy_skip)
      moreover have "resolveCalls (trace cacheB) =
          resolveCalls (trace cacheA) @ [ResolveCall (ID ident)]"
        by (simp add: c2 resolveCalls_def split: option.splits)
      ultimately show ?thesis using c1 False by simp
    qed
  qed
  then show "updateSelectorPolicy ident cacheB = ((Some cipB, False, None), cacheB)"
    and "resolveCalls (trace cacheB) =
        resolveCalls (trace cacheA) @ (if changed then [ResolveCall (ID ident)] else [])"
    and "changed = (\<not> upToDate (fst (lookupOrCreate ident cacheA)) cacheA)"
    by (simp_all add: cipA_def)
qed

theorem updateSelectorPolicy_up_to_date_witness:
  "updateSelectorPolicy exampleIdentity freshCache =
     ((Some resolvedEntry, True, None), resolvedCache)
   \<and> updateSelectorPolicy exampleIdentity resolvedCache =
     ((Some resolvedEntry, False, None), resolvedCache)
   \<and> resolveCalls (trace resolvedCache) = [ResolveCall 5]"
  using updateSelectorPolicy_up_to_date
    [where cache = resolvedCache and ident = exampleIdentity and cip = resolvedEntry
       and p = "Ptr 0 examplePolicy" and cacheA = freshCache
       and cipB = resolvedEntry and changed = True and cacheB = resolvedCache]
    example_update
  by (simp add: example_defs GetRevision_def NewPolicyCache_def resolveCalls_def)

section \<open>A successful resolution\<close>

text \<open>
  C2. When the entry of the identity (the one found or created) is not up to date and the
  resolver succeeds, updateSelectorPolicy puts the new snapshot, a new object, into the
  slot of the entry, and returns the entry, changed = true and no error. After the call
  of the resolver the trace has the swap and then, if the slot held a snapshot, one call
  of Detach on that snapshot, and nothing else; with an empty slot there is no call of
  Detach.
\<close>

theorem updateSelectorPolicy_publishes:
  assumes "cip = fst (lookupOrCreate ident cache)"
    and "\<not> upToDate cip cache"
    and "resolve (repo cache) ident = Inr sp"
    and "new = Ptr (allocated cache) sp"
  shows "updateSelectorPolicy ident cache =
     ((Some (cip\<lparr>policy := Some new\<rparr>), True, None),
      cache\<lparr>policies := (policies cache)(ID ident \<mapsto> cip\<lparr>policy := Some new\<rparr>),
            allocated := Suc (allocated cache),
            trace := trace cache @
              [ResolveCall (ID ident), SwapEvent (ID (identity cip)) (Some (addr new))] @
              (case policy cip of None \<Rightarrow> [] | Some old \<Rightarrow> [DetachCall (Some (addr old))])\<rparr>)"
  using updateSelectorPolicy_success [OF assms(1-3), of "cip\<lparr>policy := Some new\<rparr>"] assms(4)
  by simp

theorem updateSelectorPolicy_publishes_witness:
  "updateSelectorPolicy exampleIdentity (resolvedCache\<lparr>repo := newerRepo\<rparr>) =
     ((Some \<lparr>identity = exampleIdentity, policy = Some (Ptr 1 newerPolicy)\<rparr>, True, None),
      \<lparr>repo = newerRepo,
       policies = [5 \<mapsto> \<lparr>identity = exampleIdentity, policy = Some (Ptr 1 newerPolicy)\<rparr>],
       allocated = 2,
       trace = [ResolveCall 5, SwapEvent 5 (Some 0),
                ResolveCall 5, SwapEvent 5 (Some 1), DetachCall (Some 0)]\<rparr>)"
  using updateSelectorPolicy_publishes
    [where cache = "resolvedCache\<lparr>repo := newerRepo\<rparr>" and ident = exampleIdentity
       and cip = resolvedEntry and sp = newerPolicy and new = "Ptr 1 newerPolicy"]
  by (simp add: example_defs newerPolicy_def newerRepo_def lookupOrCreate_def upToDate_def
      getPolicy_def GetRevision_def)

section \<open>A failed resolution\<close>

text \<open>
  C3. When the entry of the identity is not up to date and the resolver fails,
  updateSelectorPolicy returns nil, changed = false and the error of the resolver. The
  trace gets the call of the resolver and nothing else: no swap and no call of Detach.
  The slot of every entry is as before, and when the identity had an entry the registry
  is unchanged, so the snapshot of the entry is still the one a reader gets. When the
  identity had no entry, the registry now has the new entry, its slot empty.
\<close>

theorem updateSelectorPolicy_resolver_fails:
  assumes "cip = fst (lookupOrCreate ident cache)"
    and "\<not> upToDate cip cache"
    and "resolve (repo cache) ident = Inl err"
    and "cache' = snd (updateSelectorPolicy ident cache)"
  shows "fst (updateSelectorPolicy ident cache) = (None, False, Some err)
    \<and> trace cache' = trace cache @ [ResolveCall (ID ident)]
    \<and> allocated cache' = allocated cache
    \<and> repo cache' = repo cache
    \<and> slot cache' = slot cache
    \<and> (policies cache (ID ident) \<noteq> None \<longrightarrow> policies cache' = policies cache)
    \<and> (policies cache (ID ident) = None \<longrightarrow>
         policies cache' = (policies cache)(ID ident \<mapsto> newCachedSelectorPolicy ident))"
proof -
  have c: "cache' = cache\<lparr>policies := (policies cache)(ID ident \<mapsto> cip),
            trace := trace cache @ [ResolveCall (ID ident)]\<rparr>"
    and r: "fst (updateSelectorPolicy ident cache) = (None, False, Some err)"
    using updateSelectorPolicy_error [OF assms(1-3)] assms(4) by simp_all
  have p: "policies cache (ID ident) = Some e \<Longrightarrow> cip = e" for e
    using assms(1) by (simp add: lookupOrCreate_def)
  have n: "policies cache (ID ident) = None \<Longrightarrow> cip = newCachedSelectorPolicy ident"
    using assms(1) by (simp add: lookupOrCreate_def Let_def)
  have "slot cache' k = slot cache k" for k
    using p n by (cases "policies cache (ID ident)")
      (auto simp: c slot_def newCachedSelectorPolicy_def)
  then have "slot cache' = slot cache" by (simp add: fun_eq_iff)
  moreover have "policies cache (ID ident) \<noteq> None \<longrightarrow> policies cache' = policies cache"
    using p by (auto simp: c fun_upd_idem)
  moreover have "policies cache (ID ident) = None \<longrightarrow>
      policies cache' = (policies cache)(ID ident \<mapsto> newCachedSelectorPolicy ident)"
    using n by (simp add: c)
  ultimately show ?thesis using r by (simp add: c)
qed

theorem updateSelectorPolicy_resolver_fails_witness:
  "fst (updateSelectorPolicy exampleIdentity (resolvedCache\<lparr>repo := brokenRepo\<rparr>)) =
     (None, False, Some ''unresolvable'')
   \<and> trace (snd (updateSelectorPolicy exampleIdentity (resolvedCache\<lparr>repo := brokenRepo\<rparr>))) =
       [ResolveCall 5, SwapEvent 5 (Some 0), ResolveCall 5]
   \<and> policies (snd (updateSelectorPolicy exampleIdentity (resolvedCache\<lparr>repo := brokenRepo\<rparr>))) =
       [5 \<mapsto> resolvedEntry]
   \<and> slot (snd (updateSelectorPolicy exampleIdentity (resolvedCache\<lparr>repo := brokenRepo\<rparr>))) 5 =
       Some 0"
  using updateSelectorPolicy_resolver_fails
    [where cache = "resolvedCache\<lparr>repo := brokenRepo\<rparr>" and ident = exampleIdentity
       and cip = resolvedEntry and err = "''unresolvable''"
       and cache' = "snd (updateSelectorPolicy exampleIdentity (resolvedCache\<lparr>repo := brokenRepo\<rparr>))"]
  by (simp add: example_defs brokenRepo_def lookupOrCreate_def upToDate_def
      getPolicy_def GetRevision_def slot_def)

section \<open>Deletion\<close>

text \<open>
  C6. For an identity that has an entry, delete removes the entry, calls Detach once, on
  the content of the slot of the entry (its snapshot, when it holds one), and returns
  true. A second call right after it returns false and leaves the cache as it is: no
  further call of Detach.
\<close>

theorem delete_true_once:
  assumes "policies cache (ID ident) = Some cip"
    and "cache' = snd (delete ident cache)"
  shows "fst (delete ident cache) = True
    \<and> policies cache' = (policies cache)(ID ident := None)
    \<and> trace cache' = trace cache @ [DetachCall (map_option addr (policy cip))]
    \<and> delete ident cache' = (False, cache')"
  using assms by (simp add: delete_def emit_def Detach_def getPolicy_def)

theorem delete_true_once_witness:
  "fst (delete exampleIdentity resolvedCache) = True
   \<and> policies (snd (delete exampleIdentity resolvedCache)) = Map.empty
   \<and> trace (snd (delete exampleIdentity resolvedCache)) =
       [ResolveCall 5, SwapEvent 5 (Some 0), DetachCall (Some 0)]
   \<and> delete exampleIdentity (snd (delete exampleIdentity resolvedCache)) =
       (False, snd (delete exampleIdentity resolvedCache))"
  using delete_true_once
    [where cache = resolvedCache and ident = exampleIdentity and cip = resolvedEntry
       and cache' = "snd (delete exampleIdentity resolvedCache)"]
  by (simp add: example_defs)

text \<open>
  C5. The entry of identity 5 is in the registry with an empty slot, after a first update
  whose resolution failed. delete removes it and calls Detach all the same, on the nil
  pointer that getPolicy returns: unlike setPolicy, delete does not check the old policy
  for nil before the call.
\<close>

theorem delete_empty_slot_calls_Detach:
  "snd (updateSelectorPolicy exampleIdentity freshFailingCache) = unresolvedCache
   \<and> slot unresolvedCache 5 = None
   \<and> delete exampleIdentity unresolvedCache =
       (True, \<lparr>repo = failingRepo, policies = Map.empty, allocated = 0,
               trace = [ResolveCall 5, DetachCall None]\<rparr>)"
  using example_update_fails
  by (simp add: delete_def emit_def Detach_def getPolicy_def slot_def example_defs)

section \<open>Reading an entry whose slot is empty\<close>



text \<open>
  C10. When an identity has no entry and its first update fails at resolution, the entry
  that lookupOrCreate made stays in the registry with an empty slot, and GetAuthTypes
  with that identity as the local ID then dereferences the nil pointer. GetAuthTypes
  returns a result for every local ID exactly when every entry of the registry has a
  snapshot in its slot.
\<close>

theorem GetAuthTypes_needs_snapshot:
  "(policies cache (ID ident) = None \<and> resolve (repo cache) ident = Inl err \<longrightarrow>
      policies (snd (updateSelectorPolicy ident cache)) (ID ident) =
        Some \<lparr>identity = ident, policy = None\<rparr> \<and>
      GetAuthTypes Selects Latest (snd (updateSelectorPolicy ident cache)) (ID ident) remoteID =
        Inl NilPointerDereference)
   \<and>
   ((\<forall>localID remote. \<exists>res. GetAuthTypes Selects Latest cacheB localID remote = Inr res) \<longleftrightarrow>
    (\<forall>k cip. policies cacheB k = Some cip \<longrightarrow> policy cip \<noteq> None))"
proof (intro conjI impI)
  assume a: "policies cache (ID ident) = None \<and> resolve (repo cache) ident = Inl err"
  define cip :: "'a cachedSelectorPolicy" where "cip = fst (lookupOrCreate ident cache)"
  have cip: "cip = \<lparr>identity = ident, policy = None\<rparr>"
    using a by (simp add: cip_def lookupOrCreate_def newCachedSelectorPolicy_def Let_def)
  then have "\<not> upToDate cip cache" by (simp add: upToDate_def getPolicy_def)
  from updateSelectorPolicy_error [OF cip_def this] a
  have "policies (snd (updateSelectorPolicy ident cache)) (ID ident) = Some cip" by simp
  then show "policies (snd (updateSelectorPolicy ident cache)) (ID ident) =
      Some \<lparr>identity = ident, policy = None\<rparr>"
    and "GetAuthTypes Selects Latest (snd (updateSelectorPolicy ident cache)) (ID ident) remoteID =
      Inl NilPointerDereference"
    by (simp_all add: cip GetAuthTypes_def getPolicy_def)
next
  show "(\<forall>localID remote. \<exists>res. GetAuthTypes Selects Latest cacheB localID remote = Inr res) \<longleftrightarrow>
    (\<forall>k cip. policies cacheB k = Some cip \<longrightarrow> policy cip \<noteq> None)"
  proof
    assume ok: "\<forall>localID remote. \<exists>res. GetAuthTypes Selects Latest cacheB localID remote = Inr res"
    show "\<forall>k cip. policies cacheB k = Some cip \<longrightarrow> policy cip \<noteq> None"
    proof (intro allI impI notI)
      fix k cip assume "policies cacheB k = Some cip" and "policy cip = None"
      then have "GetAuthTypes Selects Latest cacheB k undefined = Inl NilPointerDereference"
        by (simp add: GetAuthTypes_def getPolicy_def)
      with ok show False by (metis sum.distinct(1))
    qed
  next
    assume "\<forall>k cip. policies cacheB k = Some cip \<longrightarrow> policy cip \<noteq> None"
    then show "\<forall>localID remote. \<exists>res. GetAuthTypes Selects Latest cacheB localID remote = Inr res"
      by (fastforce simp: GetAuthTypes_def getPolicy_def split: option.splits)
  qed
qed

theorem GetAuthTypes_needs_snapshot_witness:
  "policies freshFailingCache 5 = None
   \<and> policies (snd (updateSelectorPolicy exampleIdentity freshFailingCache)) 5 =
       Some emptyEntry
   \<and> GetAuthTypes (\<lambda>cs v remote. cs = remote) ()
       (snd (updateSelectorPolicy exampleIdentity freshFailingCache)) 5 9 =
       Inl NilPointerDereference"
  using GetAuthTypes_needs_snapshot
    [where cache = freshFailingCache and ident = exampleIdentity
       and err = "''unresolvable''" and Selects = "\<lambda>cs v remote. cs = remote" and Latest = "()"
       and remoteID = 9]
  by (simp add: example_defs NewPolicyCache_def)

section \<open>The auth types GetAuthTypes returns\<close>

lemma missingLoop_iff: "missingLoop resTypes authTypes \<longleftrightarrow> \<not> set authTypes \<subseteq> keysOf resTypes"
  by (induction authTypes) auto

lemma addLoop_union: "addLoop s authTypes = s \<union> set authTypes"
  by (induction authTypes arbitrary: s) auto

lemma matchingAuthTypes_Nil: "matchingAuthTypes Selects Latest remoteID [] = {}"
  by (simp add: matchingAuthTypes_def)

lemma matchingAuthTypes_Cons:
  "matchingAuthTypes Selects Latest remoteID ((cs, authTypes) # rest) =
     (if Selects cs Latest remoteID then set authTypes else {}) \<union>
     matchingAuthTypes Selects Latest remoteID rest"
  by (simp add: matchingAuthTypes_def)

lemma matchingAuthTypes_set:
  "matchingAuthTypes Selects Latest remoteID amap =
     {authType. \<exists>cs authTypes. (cs, authTypes) \<in> set amap \<and> Selects cs Latest remoteID \<and>
        authType \<in> set authTypes}"
  unfolding matchingAuthTypes_def by fastforce

lemma keysOf_simps: "keysOf None = {}" "keysOf (Some s) = s"
  by (simp_all add: keysOf_def)

lemma authLoop_union:
  "authLoop Selects Latest remoteID amap resTypes =
     (if resTypes = None \<and> matchingAuthTypes Selects Latest remoteID amap = {} then None
      else Some (keysOf resTypes \<union> matchingAuthTypes Selects Latest remoteID amap))"
proof (induction amap arbitrary: resTypes)
  case Nil
  then show ?case
    by (cases resTypes) (simp_all add: matchingAuthTypes_Nil keysOf_simps)
next
  case (Cons pair rest)
  obtain cs authTypes where pair: "pair = (cs, authTypes)" by (cases pair)
  show ?case
  proof (cases "missingLoop resTypes authTypes \<and> Selects cs Latest remoteID")
    case True
    then have "set authTypes \<noteq> {}" by (auto simp: missingLoop_iff)
    with True show ?thesis
      by (simp add: pair Cons.IH matchingAuthTypes_Cons addLoop_union keysOf_simps Un_assoc)
  next
    case False
    then consider "\<not> Selects cs Latest remoteID"
      | "Selects cs Latest remoteID" "set authTypes \<subseteq> keysOf resTypes"
      by (auto simp: missingLoop_iff)
    then show ?thesis
    proof cases
      case 1
      with False show ?thesis by (simp add: pair Cons.IH matchingAuthTypes_Cons)
    next
      case 2
      then have "keysOf resTypes \<union> (set authTypes \<union> matchingAuthTypes Selects Latest remoteID rest)
          = keysOf resTypes \<union> matchingAuthTypes Selects Latest remoteID rest"
        by auto
      moreover have "resTypes = None \<Longrightarrow> set authTypes = {}"
        using 2 by (simp add: keysOf_simps)
      ultimately show ?thesis
        using False 2 by (auto simp: pair Cons.IH matchingAuthTypes_Cons)
    qed
  qed
qed

lemma authLoopNoSkip_keys:
  "keysOf (authLoopNoSkip Selects Latest remoteID amap resTypes) =
     keysOf resTypes \<union> matchingAuthTypes Selects Latest remoteID amap"
proof (induction amap arbitrary: resTypes)
  case Nil
  then show ?case by (simp add: matchingAuthTypes_Nil)
next
  case (Cons pair rest)
  obtain cs authTypes where pair: "pair = (cs, authTypes)" by (cases pair)
  show ?case
    by (auto simp: pair Cons.IH matchingAuthTypes_Cons addLoop_union keysOf_simps)
qed

text \<open>
  C7. For a local identity whose entry holds a snapshot, GetAuthTypes returns the union
  of the auth types of the pairs of AuthMap whose selector selects the remote identity at
  the latest version: the nil map when the union is empty, the union otherwise. Another
  order of iteration, of the table or of the auth types of a pair, gives the same
  result, and so does the loop that tests the selector of every pair.
\<close>

theorem GetAuthTypes_union:
  assumes "policies cache localID = Some cip"
    and "policy cip = Some p"
    and "amap = AuthMap (L4Policy (target p))"
    and "U = {authType. \<exists>cs authTypes. (cs, authTypes) \<in> set amap \<and>
                Selects cs Latest remoteID \<and> authType \<in> set authTypes}"
  shows "GetAuthTypes Selects Latest cache localID remoteID =
           Inr (if U = {} then None else Some U)
    \<and> (\<forall>amap'. set (map (\<lambda>(cs, authTypes). (cs, set authTypes)) amap') =
                 set (map (\<lambda>(cs, authTypes). (cs, set authTypes)) amap) \<longrightarrow>
          authLoop Selects Latest remoteID amap' None = authLoop Selects Latest remoteID amap None)
    \<and> keysOf (authLoop Selects Latest remoteID amap None) =
        keysOf (authLoopNoSkip Selects Latest remoteID amap None)"
proof (intro conjI allI impI)
  have U: "U = matchingAuthTypes Selects Latest remoteID amap"
    using assms(4) by (simp add: matchingAuthTypes_set)
  show "GetAuthTypes Selects Latest cache localID remoteID =
      Inr (if U = {} then None else Some U)"
    using assms(1-3) by (simp add: GetAuthTypes_def getPolicy_def authLoop_union U keysOf_simps)
  show "keysOf (authLoop Selects Latest remoteID amap None) =
      keysOf (authLoopNoSkip Selects Latest remoteID amap None)"
    by (simp add: authLoop_union authLoopNoSkip_keys keysOf_simps)
  fix amap' :: "('a \<times> AuthType list) list"
  assume same: "set (map (\<lambda>(cs, authTypes). (cs, set authTypes)) amap') =
    set (map (\<lambda>(cs, authTypes). (cs, set authTypes)) amap)"
  have m: "matchingAuthTypes Selects Latest remoteID xs =
      (\<Union>(cs, s) \<in> set (map (\<lambda>(cs, authTypes). (cs, set authTypes)) xs).
         if Selects cs Latest remoteID then s else {})" for xs
    by (induction xs) (auto simp: matchingAuthTypes_Nil matchingAuthTypes_Cons)
  have "matchingAuthTypes Selects Latest remoteID amap' =
      matchingAuthTypes Selects Latest remoteID amap"
    unfolding m same ..
  then show "authLoop Selects Latest remoteID amap' None =
      authLoop Selects Latest remoteID amap None"
    by (simp add: authLoop_union)
qed

theorem GetAuthTypes_union_witness:
  "policies resolvedCache 5 = Some resolvedEntry
   \<and> AuthMap (L4Policy examplePolicy) = [(9, [1]), (8, [2, 3])]
   \<and> GetAuthTypes (\<lambda>cs v remote. cs = remote) () resolvedCache 5 9 = Inr (Some {1})"
proof -
  have U: "{1} = {authType. \<exists>cs authTypes. (cs, authTypes) \<in> set [(9::nat, [1]), (8, [2, 3])] \<and>
                cs = (9::nat) \<and> authType \<in> set authTypes}"
    by auto
  show ?thesis
    using GetAuthTypes_union
      [where cache = resolvedCache and localID = 5 and cip = resolvedEntry
         and p = "Ptr 0 examplePolicy" and amap = "[(9, [1]), (8, [2, 3])]" and U = "{1}"
         and Selects = "\<lambda>cs v remote. cs = remote" and Latest = "()" and remoteID = 9]
      U
    by (simp add: example_defs)
qed

section \<open>A deletion that overtakes an update\<close>

lemma delete_before_setPolicy_trace:
  assumes "policies cache (ID ident) = Some cip"
    and "policy cip = Some old"
    and "Revision (target old) < GetRevision (repo cache)"
    and "resolve (repo cache) ident = Inr sp"
  shows "updateSelectorPolicy_delete_before_setPolicy ident cache =
     (((Some (cip\<lparr>policy := Some (Ptr (allocated cache) sp)\<rparr>), True, None), Some True),
      cache\<lparr>policies := (policies cache)(ID ident := None),
            allocated := Suc (allocated cache),
            trace := trace cache @
              [ResolveCall (ID ident), DetachCall (Some (addr old)),
               SwapEvent (ID (identity cip)) (Some (allocated cache)),
               DetachCall (Some (addr old))]\<rparr>)"
  using assms
  by (simp add: updateSelectorPolicy_delete_before_setPolicy_def lookupOrCreate_def
      upToDate_def getPolicy_def resolvePolicyLocked_def emit_def delete_def setPolicy_def
      Detach_def Let_def)

text \<open>
  C4. The entry of identity 5 holds the snapshot at address 0, resolved at revision 1,
  and the repository has moved to revision 2. An update of identity 5 resolves the
  snapshot at address 1; before its setPolicy, delete for identity 5 removes the entry
  and calls Detach on snapshot 0; setPolicy then swaps snapshot 1 into the entry and
  calls Detach on snapshot 0 again. Snapshot 0 has been detached twice. Snapshot 1 was
  published into an entry that is no longer in the registry, and has not been detached.
\<close>

theorem delete_during_update_detaches_twice:
  "snd (updateSelectorPolicy exampleIdentity freshCache) = resolvedCache
   \<and> updateSelectorPolicy_delete_before_setPolicy exampleIdentity
       (resolvedCache\<lparr>repo := newerRepo\<rparr>) =
     (((Some \<lparr>identity = exampleIdentity, policy = Some (Ptr 1 newerPolicy)\<rparr>, True, None),
       Some True),
      \<lparr>repo = newerRepo, policies = Map.empty, allocated = 2,
       trace = [ResolveCall 5, SwapEvent 5 (Some 0),
                ResolveCall 5, DetachCall (Some 0), SwapEvent 5 (Some 1),
                DetachCall (Some 0)]\<rparr>)
   \<and> count_list (trace (snd (updateSelectorPolicy_delete_before_setPolicy exampleIdentity
         (resolvedCache\<lparr>repo := newerRepo\<rparr>)))) (DetachCall (Some 0)) = 2
   \<and> count_list (trace (snd (updateSelectorPolicy_delete_before_setPolicy exampleIdentity
         (resolvedCache\<lparr>repo := newerRepo\<rparr>)))) (DetachCall (Some 1)) = 0"
  using example_update
  by (simp add: updateSelectorPolicy_delete_before_setPolicy_def lookupOrCreate_def
      upToDate_def getPolicy_def GetRevision_def resolvePolicyLocked_def emit_def delete_def
      setPolicy_def Detach_def Let_def example_defs newerRepo_def newerPolicy_def)

end
